theory Spec2Isabelle
  imports Main "HOL-Library.AList"
begin

section \<open>The transaction history view of \<open>gui/qt/history_list.py\<close>\<close>

text \<open>
  The development embeds the class \<open>HistoryList\<close>: its ordered mapping
  \<open>transactions\<close>, its table \<open>txid_to_items\<close>, the rows of the source model
  \<open>std_model\<close> and the cells (\<open>QStandardItem\<close> objects) that both of them
  reference. Cells are objects shared between \<open>txid_to_items\<close> and the rows of
  the model, so they live in an explicit store and are referred to by their address.

  The wallet, the exchange-rate object \<open>fx\<close> and the main window are outside
  this module; their queries are the fields of the record \<open>wallet_env\<close>.
  Exceptions are values of the type \<open>error\<close>; a function that can raise
  returns \<open>error + 'a\<close>.
\<close>

subsection \<open>Exceptions\<close>

datatype error =
    KeyError
  | IndexError
  | AssertionError
  | ValueError
  | TypeError
  | AttributeError
  | UnicodeDecodeError
  | IOError string

definition ebind :: "error + 'a \<Rightarrow> ('a \<Rightarrow> error + 'b) \<Rightarrow> error + 'b" where
  "ebind m f = (case m of Inl e \<Rightarrow> Inl e | Inr x \<Rightarrow> f x)"

text \<open>\<open>xs[i]\<close> for a literal, non-negative index.\<close>

definition py_nth :: "'a list \<Rightarrow> nat \<Rightarrow> error + 'a" where
  "py_nth xs i = (if i < length xs then Inr (xs ! i) else Inl IndexError)"

text \<open>\<open>xs[i]\<close> for a computed integer: a negative index counts from the end.\<close>

definition py_index :: "'a list \<Rightarrow> int \<Rightarrow> error + 'a" where
  "py_index xs i =
     (if 0 \<le> i \<and> i < int (length xs) then Inr (xs ! nat i)
      else if i < 0 \<and> - int (length xs) \<le> i then Inr (xs ! nat (int (length xs) + i))
      else Inl IndexError)"

text \<open>\<open>xs.index(x)\<close>; \<open>None\<close> stands for the \<open>ValueError\<close> of a missing element.\<close>

fun list_index :: "'a list \<Rightarrow> 'a \<Rightarrow> nat option" where
  "list_index [] x = None"
| "list_index (y # ys) x =
     (if y = x then Some 0 else map_option Suc (list_index ys x))"

subsection \<open>Strings\<close>

text \<open>\<open>str(n)\<close> for an integer.\<close>

fun str_nat :: "nat \<Rightarrow> string" where
  "str_nat n =
     (if n < 10 then [''0123456789'' ! n]
      else str_nat (n div 10) @ [''0123456789'' ! (n mod 10)])"

definition str_int :: "int \<Rightarrow> string" where
  "str_int i = (if i < 0 then CHR ''-'' # str_nat (nat (- i)) else str_nat (nat i))"

text \<open>
  \<open>s.lower()\<close>. A string of the embedding is a list of bytes. On ASCII text
  \<open>str.lower\<close> maps the 26 capitals and leaves every other character. On other
  text it follows the case tables of Unicode, which are not embedded here:
  \<open>unicode_lower\<close> is left unspecified, so the embedding decides nothing about a
  filter or a cell that holds a non-ASCII character.
\<close>

definition lower_char :: "char \<Rightarrow> char" where
  "lower_char c =
     (case list_index ''ABCDEFGHIJKLMNOPQRSTUVWXYZ'' c of
        Some i \<Rightarrow> ''abcdefghijklmnopqrstuvwxyz'' ! i
      | None \<Rightarrow> c)"

definition is_ascii :: "char \<Rightarrow> bool" where
  "is_ascii c = (case c of Char b0 b1 b2 b3 b4 b5 b6 b7 \<Rightarrow> \<not> b7)"

definition unicode_lower :: "string \<Rightarrow> string" where
  "unicode_lower = undefined"

definition lower :: "string \<Rightarrow> string" where
  "lower s = (if list_all is_ascii s then map lower_char s else unicode_lower s)"

text \<open>\<open>p in txt\<close> on strings: \<open>p\<close> occurs in \<open>txt\<close> as a contiguous substring.\<close>

fun startswith :: "string \<Rightarrow> string \<Rightarrow> bool" where
  "startswith txt [] = True"
| "startswith [] (p # ps) = False"
| "startswith (c # cs) (p # ps) = (c = p \<and> startswith cs ps)"

fun str_contains :: "string \<Rightarrow> string \<Rightarrow> bool" where
  "str_contains p [] = (p = [])"
| "str_contains p (c # cs) = (startswith (c # cs) p \<or> str_contains p cs)"

subsection \<open>Transaction records\<close>

text \<open>
  \<open>Satoshis\<close> and \<open>Fiat\<close> are the wrappers of \<open>electrum.util\<close>: an object with
  an attribute \<open>value\<close> that may be \<open>None\<close>.
\<close>

datatype Satoshis = Satoshis (sat_value: "int option")

datatype Fiat = Fiat (fiat_amount: "int option") (fiat_ccy: string)

text \<open>
  A row of \<open>get_full_history\<close> is a dictionary. The keys that this module reads
  with \<open>in\<close> or \<open>.get\<close>, and the fiat keys that the wallet only adds when
  the fiat history is on, may be absent: they have an option type and \<open>None\<close>
  stands for the absent key. The values of \<open>timestamp\<close> and \<open>date\<close> may be
  Python's \<open>None\<close> (an unconfirmed transaction).
\<close>

record tx_item =
  txid :: string
  height :: int
  confirmations :: "int option"
  timestamp :: "int option"
  tx_value :: Satoshis
  balance :: Satoshis
  label :: "string option"
  date :: "int option"
  fiat_value :: "Fiat option"
  fiat_default :: "bool option"
  acquisition_price :: "Fiat option"
  capital_gain :: "Fiat option"
  fee :: "Satoshis option"
  fiat_fee :: "Fiat option"

record TxMinedStatus =
  ms_height :: int
  ms_conf :: int
  ms_timestamp :: "int option"
  ms_header_hash :: "string option"

subsection \<open>The queries of the wallet, of \<open>fx\<close> and of the main window\<close>

record wallet_env =
  get_tx_status :: "string \<Rightarrow> TxMinedStatus \<Rightarrow> int \<times> string"
  get_tx_height :: "string \<Rightarrow> TxMinedStatus"
  invoices_paid :: "string \<Rightarrow> string option"
  format_amount :: "int option \<Rightarrow> bool \<Rightarrow> string"
  show_history :: bool
  get_history_capital_gains_config :: bool
  format_fiat :: "int option \<Rightarrow> string"

definition TX_ICONS :: "string list" where
  "TX_ICONS =
     [''unconfirmed.png'', ''warning.png'', ''unconfirmed.png'', ''offline_tx.png'',
      ''clock1.png'', ''clock2.png'', ''clock3.png'', ''clock4.png'', ''clock5.png'',
      ''confirmed.png'']"

text \<open>\<open>self.icon_cache.get(":icons/" + TX_ICONS[status])\<close>: an icon is its resource name.\<close>

definition tx_icon :: "int \<Rightarrow> error + string" where
  "tx_icon status = ebind (py_index TX_ICONS status) (\<lambda>n. Inr ('':icons/'' @ n))"

subsection \<open>Cells, rows and the view\<close>

datatype brush = red_brush | blue_brush | default_color

text \<open>A \<open>QStandardItem\<close>: the attributes that this module sets.\<close>

record cell =
  cell_text :: string
  cell_icon :: "string option"
  tool_tip :: "string option"
  foreground :: "brush option"
  monospace_font :: bool
  align_right :: bool
  editable :: bool
  tx_hash_role :: "string option"
  data_role :: "(int \<times> int) option"

text \<open>\<open>QStandardItem(e)\<close>.\<close>

definition QStandardItem :: "string \<Rightarrow> cell" where
  "QStandardItem e =
     \<lparr>cell_text = e, cell_icon = None, tool_tip = None, foreground = None,
      monospace_font = False, align_right = False, editable = True,
      tx_hash_role = None, data_role = None\<rparr>"

text \<open>
  A row of the source model: the addresses of its cells by column (\<open>None\<close> where
  the model holds no item yet), and whether the tree view hides the row. The view
  keeps its hidden rows as persistent indices, which stay with the row when other
  rows come and go.
\<close>

record model_row =
  row_items :: "nat option list"
  row_hidden :: bool

record HistoryList =
  transactions :: "(string \<times> tx_item) list"
  txid_to_items :: "(string \<times> nat list) list"
  item_store :: "cell list"
  std_model :: "model_row list"
  column_count :: nat
  editable_columns :: "nat set"
  current_filter :: string
  start_timestamp :: "int option"
  end_timestamp :: "int option"

definition filter_columns :: "nat list" where
  "filter_columns = [1, 2, 3]"

subsection \<open>The source model\<close>

text \<open>
  The operations of \<open>QStandardItemModel\<close> that the module calls. An index is
  valid inside the rows and columns of the model; \<open>itemFromIndex\<close> returns the
  item at a valid index and creates an empty one there when the model holds none,
  and returns \<open>None\<close> for an invalid index.
\<close>

definition modify_item :: "nat \<Rightarrow> (cell \<Rightarrow> cell) \<Rightarrow> HistoryList \<Rightarrow> HistoryList" where
  "modify_item a f s = s\<lparr>item_store := (item_store s)[a := f (item_store s ! a)]\<rparr>"

definition index_valid :: "HistoryList \<Rightarrow> nat \<Rightarrow> nat \<Rightarrow> bool" where
  "index_valid s row col \<longleftrightarrow> row < length (std_model s) \<and> col < column_count s"

definition row_get :: "nat option list \<Rightarrow> nat \<Rightarrow> nat option" where
  "row_get its col = (if col < length its then its ! col else None)"

definition row_put :: "nat option list \<Rightarrow> nat \<Rightarrow> nat \<Rightarrow> nat option list" where
  "row_put its col a = (its @ replicate (Suc col - length its) None)[col := Some a]"

definition itemFromIndex :: "HistoryList \<Rightarrow> nat \<Rightarrow> nat \<Rightarrow> (HistoryList \<times> nat) option" where
  "itemFromIndex s row col =
     (if \<not> index_valid s row col then None
      else case row_get (row_items (std_model s ! row)) col of
        Some a \<Rightarrow> Some (s, a)
      | None \<Rightarrow>
          (let a = length (item_store s);
               r = std_model s ! row
           in Some (s\<lparr>item_store := item_store s @ [QStandardItem []],
                       std_model := (std_model s)[row := r\<lparr>row_items := row_put (row_items r) col a\<rparr>]\<rparr>,
                    a)))"

text \<open>\<open>insertRow(rowCount(), items)\<close>: the model grows to the columns of the new row.\<close>

definition insertRow :: "HistoryList \<Rightarrow> nat list \<Rightarrow> HistoryList" where
  "insertRow s its =
     s\<lparr>std_model := std_model s @ [\<lparr>row_items = map Some its, row_hidden = False\<rparr>],
       column_count := max (column_count s) (length its)\<rparr>"

text \<open>
  \<open>takeRow(row)\<close> removes the row and returns its items, one per column of the
  model; outside the rows it returns the empty list and removes nothing.
\<close>

definition takeRow :: "HistoryList \<Rightarrow> nat \<Rightarrow> HistoryList \<times> nat option list" where
  "takeRow s row =
     (if row < length (std_model s) then
        (let its = row_items (std_model s ! row)
         in (s\<lparr>std_model := take row (std_model s) @ drop (Suc row) (std_model s)\<rparr>,
             its @ replicate (column_count s - length its) None))
      else (s, []))"

definition setRowHidden :: "HistoryList \<Rightarrow> nat \<Rightarrow> bool \<Rightarrow> HistoryList" where
  "setRowHidden s row hide =
     (if row < length (std_model s)
      then s\<lparr>std_model := (std_model s)[row := (std_model s ! row)\<lparr>row_hidden := hide\<rparr>]\<rparr>
      else s)"

subsection \<open>\<open>hide_row\<close>\<close>

text \<open>
  The proxy model only sorts: a proxy row stands for one source row, and
  \<open>hide_row\<close> is given here the source row that \<open>mapToSource\<close> yields.
  The \<open>for\<close> loop over the filter columns returns whether it left by
  \<open>break\<close>; its \<open>else\<close> branch runs when it did not.
\<close>

fun filter_loop :: "HistoryList \<Rightarrow> nat \<Rightarrow> nat list \<Rightarrow> error + (HistoryList \<times> bool)" where
  "filter_loop s row [] = Inr (s, False)"
| "filter_loop s row (column # cols) =
     (case itemFromIndex s row column of
        None \<Rightarrow> Inl AttributeError
      | Some (s1, a) \<Rightarrow>
          if str_contains (current_filter s1) (lower (cell_text (item_store s1 ! a)))
          then Inr (s1, True)
          else filter_loop s1 row cols)"

definition hide_row :: "HistoryList \<Rightarrow> nat \<Rightarrow> error + HistoryList" where
  "hide_row s row =
     ebind (filter_loop s row (if current_filter s = [] then [] else filter_columns))
       (\<lambda>(s1, found).
          if found then Inr (setRowHidden s1 row False)
          else if start_timestamp s1 \<noteq> None \<and> end_timestamp s1 \<noteq> None then
            (case itemFromIndex s1 row 0 of
               None \<Rightarrow> Inl AttributeError
             | Some (s2, a) \<Rightarrow>
                 (case tx_hash_role (item_store s2 ! a) of
                    None \<Rightarrow> Inl KeyError
                  | Some k \<Rightarrow>
                      (case map_of (transactions s2) k of
                         None \<Rightarrow> Inl KeyError
                       | Some tx \<Rightarrow>
                           (case date tx of
                              Some d \<Rightarrow>
                                if \<not> (the (start_timestamp s2) \<le> d \<and> d \<le> the (end_timestamp s2))
                                then Inr (setRowHidden s2 row True)
                                else Inr (setRowHidden s2 row False)
                            | None \<Rightarrow> Inr (setRowHidden s2 row False)))))
          else Inr (setRowHidden s1 row False))"

fun hide_rows_from :: "HistoryList \<Rightarrow> nat list \<Rightarrow> error + HistoryList" where
  "hide_rows_from s [] = Inr s"
| "hide_rows_from s (row # rows) = ebind (hide_row s row) (\<lambda>s1. hide_rows_from s1 rows)"

definition hide_rows :: "HistoryList \<Rightarrow> error + HistoryList" where
  "hide_rows s = hide_rows_from s [0..<length (std_model s)]"

text \<open>\<open>filter(p)\<close>.\<close>

definition filter_view :: "HistoryList \<Rightarrow> string \<Rightarrow> error + HistoryList" where
  "filter_view s p = hide_rows (s\<lparr>current_filter := lower p\<rparr>)"

definition limit_confirmations :: "tx_item list \<Rightarrow> tx_item list" where
  "limit_confirmations r =
     map (\<lambda>i. case confirmations i of
                  Some c \<Rightarrow> if c \<ge> 10 then i\<lparr>confirmations := Some 10\<rparr> else i
                | None \<Rightarrow> i) r"

subsection \<open>Cells of one transaction\<close>

definition set_item_properties :: "HistoryList \<Rightarrow> nat \<Rightarrow> nat \<Rightarrow> string \<Rightarrow> HistoryList" where
  "set_item_properties s a i tx_hash =
     modify_item a
       (\<lambda>c. c\<lparr>align_right := (if i > 2 then True else align_right c),
               monospace_font := (if i \<noteq> 1 then True else monospace_font c),
               editable := (if i \<notin> editable_columns s then False else editable c),
               tx_hash_role := Some tx_hash\<rparr>) s"

text \<open>
  \<open>update_item\<close>. \<open>update\<close> and \<open>__init__\<close> set \<open>self.wallet\<close> from the
  main window and call a method of it before any row is touched, so the branch
  \<open>self.wallet is None\<close> is not taken on the paths embedded here.
\<close>

definition update_item :: "wallet_env \<Rightarrow> HistoryList \<Rightarrow> string \<Rightarrow> TxMinedStatus \<Rightarrow> error + HistoryList" where
  "update_item env s tx_hash tx_mined_status =
     (let conf = ms_conf tx_mined_status;
          (status, status_str) = get_tx_status env tx_hash tx_mined_status
      in ebind (tx_icon status) (\<lambda>icon.
           case map_of (txid_to_items s) tx_hash of
             None \<Rightarrow> Inr s
           | Some items \<Rightarrow>
               ebind (py_nth items 0) (\<lambda>i0.
               ebind (py_nth items 1) (\<lambda>i1.
                 Inr (modify_item i1 (\<lambda>c. c\<lparr>cell_text := status_str\<rparr>)
                       (modify_item i0
                          (\<lambda>c. c\<lparr>cell_icon := Some icon,
                                  tool_tip := Some (str_int conf @ '' confirmation''
                                                    @ (if conf \<noteq> 1 then ''s'' else [])),
                                  data_role := Some (status, conf)\<rparr>) s))))))"

text \<open>
  \<open>ensure(items, idx, txid)\<close>: the loop appends to the list \<open>items\<close> in place;
  the embedding returns the grown list with the view.
\<close>

function ensure :: "HistoryList \<Rightarrow> nat list \<Rightarrow> nat \<Rightarrow> string \<Rightarrow> error + (HistoryList \<times> nat list)" where
  "ensure s items idx tx_hash =
     (if length items < idx + 1 then
        (case list_index (map fst (transactions s)) tx_hash of
           None \<Rightarrow> Inl ValueError
         | Some row \<Rightarrow>
             (case itemFromIndex s row (length items) of
                None \<Rightarrow> Inl AssertionError
              | Some (s1, a) \<Rightarrow>
                  ensure (set_item_properties s1 a (length items) tx_hash) (items @ [a]) idx tx_hash))
      else Inr (s, items))"
  by pat_completeness auto
termination
  by (relation "measure (\<lambda>(s, items, idx, tx_hash). idx + 1 - length items)") auto

text \<open>
  \<open>update_fiat\<close>. The list \<open>items\<close> is the one stored in \<open>txid_to_items\<close>, so
  what \<open>ensure\<close> appended is written back under \<open>txid\<close>. A \<open>Fiat\<close> object
  defines no truth value of its own and counts as true.
\<close>

definition update_fiat :: "wallet_env \<Rightarrow> HistoryList \<Rightarrow> string \<Rightarrow> tx_item \<Rightarrow> error + HistoryList" where
  "update_fiat env s k row =
     (let cap_gains = get_history_capital_gains_config env in
      case map_of (txid_to_items s) k of
        None \<Rightarrow> Inl KeyError
      | Some items0 \<Rightarrow>
          ebind (ensure s items0 (if cap_gains then 7 else 5) k) (\<lambda>(s1, items).
          ebind (py_nth items 5) (\<lambda>i5.
          ebind (case fiat_default row of None \<Rightarrow> Inl KeyError | Some fd \<Rightarrow> Inr fd) (\<lambda>fd.
          ebind (case fiat_value row of None \<Rightarrow> Inl KeyError | Some fv \<Rightarrow> Inr fv) (\<lambda>fv.
          ebind (case sat_value (tx_value row) of None \<Rightarrow> Inl TypeError | Some v \<Rightarrow> Inr v) (\<lambda>v.
          let s2 = s1\<lparr>txid_to_items := AList.update k items (txid_to_items s1)\<rparr>;
              s3 = modify_item i5
                     (\<lambda>c. c\<lparr>foreground := Some (if \<not> fd then blue_brush else default_color),
                             cell_text := format_fiat env (fiat_amount fv)\<rparr>) s2
          in if v < 0 \<and> cap_gains then
               ebind (py_nth items 6) (\<lambda>i6.
               ebind (case acquisition_price row of None \<Rightarrow> Inl KeyError | Some ap \<Rightarrow> Inr ap) (\<lambda>ap.
               ebind (py_nth items 7) (\<lambda>i7.
               ebind (case capital_gain row of None \<Rightarrow> Inl KeyError | Some cg \<Rightarrow> Inr cg) (\<lambda>cg.
                 Inr (modify_item i7 (\<lambda>c. c\<lparr>cell_text := format_fiat env (fiat_amount cg)\<rparr>)
                       (modify_item i6 (\<lambda>c. c\<lparr>cell_text := format_fiat env (fiat_amount ap)\<rparr>) s3))))))
             else Inr s3))))))"

subsection \<open>\<open>insert_tx\<close>\<close>

text \<open>The new cells of \<open>[QStandardItem(e) for e in entry]\<close>, at fresh addresses.\<close>

definition new_items :: "HistoryList \<Rightarrow> string list \<Rightarrow> HistoryList \<times> nat list" where
  "new_items s entry =
     (s\<lparr>item_store := item_store s @ map QStandardItem entry\<rparr>,
      [length (item_store s)..<length (item_store s) + length entry])"

fun set_all_properties :: "HistoryList \<Rightarrow> nat list \<Rightarrow> nat \<Rightarrow> string \<Rightarrow> HistoryList" where
  "set_all_properties s [] i tx_hash = s"
| "set_all_properties s (a # as) i tx_hash =
     set_all_properties (set_item_properties s a i tx_hash) as (Suc i) tx_hash"

text \<open>
  The statements of \<open>insert_tx\<close> from \<open>item = [QStandardItem(e) for e in entry]\<close>
  to \<open>self.txid_to_items[tx_hash] = item\<close>: the cells are made, given the invoice
  icon, their properties and the red brush of a negative amount, and entered in
  the table.
\<close>

definition new_row_items ::
  "HistoryList \<Rightarrow> string \<Rightarrow> string list \<Rightarrow> bool \<Rightarrow> int option \<Rightarrow> HistoryList \<times> nat list" where
  "new_row_items s tx_hash entry has_invoice val =
     (let (s1, item) = new_items s entry;
          s2 = (if has_invoice
                then modify_item (item ! 2) (\<lambda>c. c\<lparr>cell_icon := Some '':icons/seal''\<rparr>) s1
                else s1);
          s3 = set_all_properties s2 item 0 tx_hash;
          s4 = (if (case val of None \<Rightarrow> False | Some v \<Rightarrow> (v \<noteq> 0 \<and> v < 0))
                then modify_item (item ! 3) (\<lambda>c. c\<lparr>foreground := Some red_brush\<rparr>)
                       (modify_item (item ! 2) (\<lambda>c. c\<lparr>foreground := Some red_brush\<rparr>) s3)
                else s3)
      in (s4\<lparr>txid_to_items := AList.update tx_hash item (txid_to_items s4)\<rparr>, item))"

definition insert_tx :: "wallet_env \<Rightarrow> HistoryList \<Rightarrow> tx_item \<Rightarrow> error + HistoryList" where
  "insert_tx env s tx =
     (let tx_hash = txid tx in
      ebind (case confirmations tx of None \<Rightarrow> Inl KeyError | Some conf \<Rightarrow> Inr conf) (\<lambda>conf.
      ebind (case label tx of None \<Rightarrow> Inl KeyError | Some lbl \<Rightarrow> Inr lbl) (\<lambda>lbl.
      let val = sat_value (tx_value tx);
          tx_mined_status = \<lparr>ms_height = height tx, ms_conf = conf,
                             ms_timestamp = timestamp tx, ms_header_hash = None\<rparr>;
          (status, status_str) = get_tx_status env tx_hash tx_mined_status;
          has_invoice = (case invoices_paid env tx_hash of None \<Rightarrow> False | Some pr \<Rightarrow> pr \<noteq> [])
      in ebind (tx_icon status) (\<lambda>icon.
         let v_str = format_amount env val True;
             balance_str = format_amount env (sat_value (balance tx)) False;
             entry = [[], status_str, lbl, v_str, balance_str];
             (s5, item) = new_row_items s tx_hash entry has_invoice val
         in ebind (update_item env s5 tx_hash (get_tx_height env tx_hash)) (\<lambda>s6.
            let source_row_idx = length (std_model s6);
                s7 = insertRow s6 item
            in ebind (if show_history env then update_fiat env s7 tx_hash tx else Inr s7) (\<lambda>s8.
               hide_row s8 source_row_idx))))))"

subsection \<open>\<open>update\<close>\<close>

text \<open>\<open>OrderedDict.move_to_end(key, last=True)\<close>.\<close>

definition move_to_end :: "'k \<Rightarrow> ('k \<times> 'v) list \<Rightarrow> error + ('k \<times> 'v) list" where
  "move_to_end k al =
     (case map_of al k of
        None \<Rightarrow> Inl KeyError
      | Some v \<Rightarrow> Inr (AList.delete k al @ [(k, v)]))"

text \<open>
  The three statements that add an unseen transaction:
  \<open>self.transactions[txid] = row\<close>, \<open>move_to_end\<close> and \<open>insert_tx(row)\<close>.
\<close>

definition add_tx :: "wallet_env \<Rightarrow> HistoryList \<Rightarrow> tx_item \<Rightarrow> error + HistoryList" where
  "add_tx env s row =
     ebind (move_to_end (txid row) (AList.update (txid row) row (transactions s)))
       (\<lambda>al. insert_tx env (s\<lparr>transactions := al\<rparr>) row)"

text \<open>
  One round of the loop over the fetched rows. \<open>old.clear(); old.update(**row)\<close>
  turns the stored record into \<open>row\<close> and leaves its place in the mapping.
\<close>

definition walk_step :: "wallet_env \<Rightarrow> HistoryList \<Rightarrow> tx_item \<Rightarrow> error + HistoryList" where
  "walk_step env s row =
     (let k = txid row in
      case map_of (transactions s) k of
        None \<Rightarrow> add_tx env s row
      | Some old \<Rightarrow>
          if old = row then Inr s
          else
            ebind (update_item env s k (get_tx_height env k)) (\<lambda>s1.
            ebind (if show_history env then update_fiat env s1 k row else Inr s1) (\<lambda>s2.
            let balance_str = format_amount env (sat_value (balance row)) False in
            case map_of (txid_to_items s2) k of
              None \<Rightarrow> Inl KeyError
            | Some items \<Rightarrow>
                ebind (py_nth items 4) (\<lambda>i4.
                  Inr ((modify_item i4 (\<lambda>c. c\<lparr>cell_text := balance_str\<rparr>) s2)
                         \<lparr>transactions := AList.update k row (transactions s2)\<rparr>)))))"

fun walk :: "wallet_env \<Rightarrow> HistoryList \<Rightarrow> string set \<Rightarrow> tx_item list \<Rightarrow> error + (HistoryList \<times> string set)" where
  "walk env s seen [] = Inr (s, seen)"
| "walk env s seen (row # rows) =
     ebind (walk_step env s row) (\<lambda>s1. walk env s1 (insert (txid row) seen) rows)"

text \<open>
  The loop over \<open>list(enumerate(self.transactions.keys()))\<close> that removes the rows
  that were not seen. \<open>removed\<close> never exceeds \<open>idx\<close>, so the difference is a
  natural number.
\<close>

fun remove_unseen :: "HistoryList \<Rightarrow> string set \<Rightarrow> nat \<Rightarrow> (nat \<times> string) list \<Rightarrow> error + HistoryList" where
  "remove_unseen s seen removed [] = Inr s"
| "remove_unseen s seen removed ((idx, k) # l) =
     (if k \<notin> seen then
        (case map_of (transactions s) k of
           None \<Rightarrow> Inl KeyError
         | Some _ \<Rightarrow>
             (case map_of (txid_to_items s) k of
                None \<Rightarrow> Inl KeyError
              | Some _ \<Rightarrow>
                  (let s1 = s\<lparr>transactions := AList.delete k (transactions s),
                              txid_to_items := AList.delete k (txid_to_items s)\<rparr>;
                       (s2, items) = takeRow s1 (idx - removed)
                   in ebind (py_nth items 0) (\<lambda>i0.
                        case i0 of
                          None \<Rightarrow> Inl AttributeError
                        | Some a \<Rightarrow>
                            if tx_hash_role (item_store s2 ! a) = Some k
                            then remove_unseen s2 seen (Suc removed) l
                            else Inl AssertionError))))
      else remove_unseen s seen removed l)"

text \<open>
  \<open>update\<close>, given the rows \<open>fetched\<close> that \<open>get_full_history\<close> returns. The
  fast path returns only when the hash of the trailing row is new; otherwise
  control falls through to the walk.
\<close>

definition full_walk :: "wallet_env \<Rightarrow> HistoryList \<Rightarrow> tx_item list \<Rightarrow> error + HistoryList" where
  "full_walk env s r =
     ebind (walk env s {} r) (\<lambda>(s1, seen).
       remove_unseen s1 seen 0 (enumerate 0 (map fst (transactions s1))))"

definition update :: "wallet_env \<Rightarrow> tx_item list \<Rightarrow> HistoryList \<Rightarrow> error + HistoryList" where
  "update env fetched s =
     (let r = limit_confirmations fetched;
          tx_list = map snd (transactions s)
      in if r = tx_list then Inr s
         else if butlast r = tx_list \<and> r \<noteq> [] \<and> map_of (transactions s) (txid (last r)) = None
         then add_tx env s (last r)
         else full_walk env s r)"

subsection \<open>\<open>__init__\<close>\<close>





subsection \<open>Export and import\<close>

text \<open>
  What \<open>csv.writer\<close> is given for one field: a string, an integer, a
  \<open>Satoshis\<close> or \<open>Fiat\<close> object, a \<open>datetime\<close>, or \<open>None\<close> (written as
  an empty field).

  What the \<open>with open(...)\<close> block produces: the rows handed to \<open>writerow\<close>, or
  the text that \<open>json_encode\<close> makes of its argument. That argument is
  \<open>self.transactions.values()\<close>, a view object of the dictionary and not a list;
  \<open>json_encode\<close> belongs to \<open>electrum.util\<close>, and whether it accepts a view is
  not decided in this module.

  The function \<open>write_file\<close> stands for running the block on a file name: it
  yields the exception that \<open>open\<close>, the encoder or a write raises (an
  \<open>OSError\<close>, of which \<open>IOError\<close> and \<open>os.error\<close> are other names, is
  \<open>IOError reason\<close>), or \<open>None\<close> when the file was written.
\<close>

datatype csv_value =
    CsvStr string
  | CsvInt int
  | CsvSatoshis Satoshis
  | CsvFiat Fiat
  | CsvDate int
  | CsvNone

datatype export_file =
    CsvRows "csv_value list list"
  | JsonOfValuesView "tx_item list"

definition csv_header :: "csv_value list" where
  "csv_header =
     map CsvStr [''transaction_hash'', ''label'', ''confirmations'', ''value'',
                 ''fiat_value'', ''fee'', ''fiat_fee'', ''timestamp'']"

definition csv_line :: "tx_item \<Rightarrow> error + csv_value list" where
  "csv_line item =
     (case confirmations item of
        None \<Rightarrow> Inl KeyError
      | Some c \<Rightarrow>
          Inr [CsvStr (txid item),
               (case label item of None \<Rightarrow> CsvStr [] | Some l \<Rightarrow> CsvStr l),
               CsvInt c,
               CsvSatoshis (tx_value item),
               (case fiat_value item of None \<Rightarrow> CsvStr [] | Some v \<Rightarrow> CsvFiat v),
               (case fee item of None \<Rightarrow> CsvStr [] | Some v \<Rightarrow> CsvSatoshis v),
               (case fiat_fee item of None \<Rightarrow> CsvStr [] | Some v \<Rightarrow> CsvFiat v),
               (case date item of None \<Rightarrow> CsvNone | Some d \<Rightarrow> CsvDate d)])"

fun csv_lines :: "tx_item list \<Rightarrow> error + csv_value list list" where
  "csv_lines [] = Inr []"
| "csv_lines (item # items) =
     ebind (csv_line item) (\<lambda>l. ebind (csv_lines items) (\<lambda>ls. Inr (l # ls)))"

definition do_export_history ::
  "(string \<Rightarrow> export_file \<Rightarrow> error option) \<Rightarrow> HistoryList \<Rightarrow> string \<Rightarrow> bool \<Rightarrow> error + export_file" where
  "do_export_history write_file s file_name is_csv =
     (let history = map snd (transactions s) in
      ebind (if is_csv then csv_lines history else Inr [])
        (\<lambda>lines.
           let content = (if is_csv then CsvRows (csv_header # lines) else JsonOfValuesView history)
           in case write_file file_name content of
                Some e \<Rightarrow> Inl e
              | None \<Rightarrow> Inr content))"

datatype ui_event =
    show_critical string
  | show_message string
  | show_error string

text \<open>
  \<open>export_history_dialog\<close>: \<open>accepted\<close> is the result of \<open>d.exec_()\<close>,
  \<open>filename\<close> the text of the file name field, \<open>is_csv\<close> the state of the
  CSV button. The result holds the view after \<open>self.update()\<close> and the dialogs
  shown to the user.
\<close>

definition export_history_dialog ::
  "wallet_env \<Rightarrow> (string \<Rightarrow> export_file \<Rightarrow> error option) \<Rightarrow> tx_item list \<Rightarrow> HistoryList
     \<Rightarrow> bool \<Rightarrow> string \<Rightarrow> bool \<Rightarrow> error + (HistoryList \<times> ui_event list)" where
  "export_history_dialog env write_file fetched s accepted filename is_csv =
     ebind (update env fetched s)
       (\<lambda>s1. if \<not> accepted then Inr (s1, [])
              else if filename = [] then Inr (s1, [])
              else (case do_export_history write_file s1 filename is_csv of
                      Inl (IOError reason) \<Rightarrow>
                        Inr (s1, [show_critical
                                    (''Electrum was unable to produce a transaction export.''
                                     @ [CHR 0x0A] @ reason)])
                    | Inl e \<Rightarrow> Inl e
                    | Inr _ \<Rightarrow>
                        Inr (s1, [show_message
                                    ''Your wallet history has been successfully exported.''])))"

text \<open>
  \<open>onFileAdded\<close>. \<open>open(fn)\<close> opens the file in text mode: \<open>open_file\<close> yields
  the bytes of the file or the \<open>OSError\<close> of opening it, and \<open>f.read()\<close>
  decodes them with the codec of the locale, \<open>decode_text\<close>, which raises
  \<open>UnicodeDecodeError\<close> (a \<open>ValueError\<close>, not an \<open>OSError\<close>) on bytes
  that are no text. The two calls into the main window are outside this module:
  \<open>tx_from_text\<close> yields a transaction or \<open>None\<close> or raises, and
  \<open>save_transaction_into_wallet\<close> yields its result or raises.
\<close>

record 'tx import_env =
  open_file :: "string \<Rightarrow> error + string"
  decode_text :: "string \<Rightarrow> error + string"
  tx_from_text :: "string \<Rightarrow> error + 'tx option"
  save_transaction_into_wallet :: "'tx option \<Rightarrow> error + bool"

text \<open>The codec \<open>ascii\<close>, which the C locale selects.\<close>

definition ascii_codec :: "string \<Rightarrow> error + string" where
  "ascii_codec bytes = (if list_all is_ascii bytes then Inr bytes else Inl UnicodeDecodeError)"

definition onFileAdded :: "'tx import_env \<Rightarrow> string \<Rightarrow> error + ui_event list" where
  "onFileAdded env fn =
     (case ebind (open_file env fn) (\<lambda>bytes.
           ebind (decode_text env bytes) (\<lambda>txt.
           ebind (tx_from_text env txt) (\<lambda>tx.
           save_transaction_into_wallet env tx))) of
        Inl (IOError e) \<Rightarrow> Inr [show_error e]
      | Inl e \<Rightarrow> Inl e
      | Inr _ \<Rightarrow> Inr [])"

subsection \<open>What the view shows, and its invariant\<close>







text \<open>
  A step that only rewrites the store: the new store has the old length, keeps the
  hash of every cell, and differs from the old one only at the addresses in \<open>A\<close>.
  \<open>cell_step\<close> is a step of the view that changes nothing but the store, in this way.
\<close>

definition store_step :: "nat set \<Rightarrow> cell list \<Rightarrow> cell list \<Rightarrow> bool" where
  "store_step A st st' \<longleftrightarrow>
     length st' = length st
     \<and> (\<forall>a. tx_hash_role (st' ! a) = tx_hash_role (st ! a))
     \<and> (\<forall>a. a \<notin> A \<longrightarrow> st' ! a = st ! a)"

definition cell_step :: "nat set \<Rightarrow> HistoryList \<Rightarrow> HistoryList \<Rightarrow> bool" where
  "cell_step A s s' \<longleftrightarrow> (\<exists>st'. s' = s\<lparr>item_store := st'\<rparr> \<and> store_step A (item_store s) st')"



subsection \<open>The claims of the specification in its own words\<close>

text \<open>
  The two filters as the specification states them: a row passes the text filter
  when no filter string is set or the string occurs in one of the filter columns,
  and passes the date filter unless both bounds and the date are set and the date
  lies outside the closed range.
\<close>

definition spec_text_filter :: "string \<Rightarrow> string list \<Rightarrow> bool" where
  "spec_text_filter flt texts \<longleftrightarrow> flt = [] \<or> list_ex (\<lambda>t. str_contains flt (lower t)) texts"

definition spec_date_filter :: "int option \<Rightarrow> int option \<Rightarrow> int option \<Rightarrow> bool" where
  "spec_date_filter start end d =
     (case (start, end, d) of
        (Some st, Some en, Some x) \<Rightarrow> st \<le> x \<and> x \<le> en
      | _ \<Rightarrow> True)"

definition spec_visible :: "string \<Rightarrow> string list \<Rightarrow> int option \<Rightarrow> int option \<Rightarrow> int option \<Rightarrow> bool" where
  "spec_visible flt texts start end d \<longleftrightarrow> spec_text_filter flt texts \<and> spec_date_filter start end d"


subsection \<open>A small wallet for the concrete instances\<close>

definition wallet0 :: wallet_env where
  "wallet0 =
     \<lparr>get_tx_status = (\<lambda>k st. (if ms_conf st \<ge> 6 then 9 else 4, ''ok'')),
      get_tx_height =
        (\<lambda>k. \<lparr>ms_height = 100, ms_conf = 3, ms_timestamp = Some 5, ms_header_hash = None\<rparr>),
      invoices_paid = (\<lambda>k. None),
      format_amount = (\<lambda>v d. case v of None \<Rightarrow> ''unknown'' | Some n \<Rightarrow> str_int n),
      show_history = False,
      get_history_capital_gains_config = False,
      format_fiat = (\<lambda>v. case v of None \<Rightarrow> ''No Data'' | Some n \<Rightarrow> str_int n)\<rparr>"

definition tx0 :: "string \<Rightarrow> int \<Rightarrow> tx_item" where
  "tx0 k b =
     \<lparr>txid = k, height = 100, confirmations = Some 3, timestamp = Some 5,
      tx_value = Satoshis (Some 7), balance = Satoshis (Some b), label = Some ''lbl'',
      date = Some 5, fiat_value = None, fiat_default = None, acquisition_price = None,
      capital_gain = None, fee = None, fiat_fee = None\<rparr>"

text \<open>The cells of the row that \<open>insert_tx\<close> makes for \<open>tx0 k b\<close> in \<open>wallet0\<close>.\<close>

definition cells0 :: "string \<Rightarrow> string \<Rightarrow> cell list" where
  "cells0 k b =
     [\<lparr>cell_text = [], cell_icon = Some '':icons/clock1.png'',
       tool_tip = Some ''3 confirmations'', foreground = None, monospace_font = True,
       align_right = False, editable = False, tx_hash_role = Some k, data_role = Some (4, 3)\<rparr>,
      \<lparr>cell_text = ''ok'', cell_icon = None, tool_tip = None, foreground = None,
       monospace_font = False, align_right = False, editable = False,
       tx_hash_role = Some k, data_role = None\<rparr>,
      \<lparr>cell_text = ''lbl'', cell_icon = None, tool_tip = None, foreground = None,
       monospace_font = True, align_right = False, editable = True,
       tx_hash_role = Some k, data_role = None\<rparr>,
      \<lparr>cell_text = ''7'', cell_icon = None, tool_tip = None, foreground = None,
       monospace_font = True, align_right = True, editable = False,
       tx_hash_role = Some k, data_role = None\<rparr>,
      \<lparr>cell_text = b, cell_icon = None, tool_tip = None, foreground = None,
       monospace_font = True, align_right = True, editable = False,
       tx_hash_role = Some k, data_role = None\<rparr>]"

text \<open>The view with the one transaction \<open>tx0 ''a'' 1\<close>, and the view with a second one.\<close>

definition view1 :: HistoryList where
  "view1 =
     \<lparr>transactions = [(''a'', tx0 ''a'' 1)],
      txid_to_items = [(''a'', [0, 1, 2, 3, 4])],
      item_store = cells0 ''a'' ''1'',
      std_model = [\<lparr>row_items = [Some 0, Some 1, Some 2, Some 3, Some 4], row_hidden = False\<rparr>],
      column_count = 5, editable_columns = {2}, current_filter = [],
      start_timestamp = None, end_timestamp = None\<rparr>"

definition view2 :: HistoryList where
  "view2 =
     \<lparr>transactions = [(''a'', tx0 ''a'' 1), (''b'', tx0 ''b'' 2)],
      txid_to_items = [(''a'', [0, 1, 2, 3, 4]), (''b'', [5, 6, 7, 8, 9])],
      item_store = cells0 ''a'' ''1'' @ cells0 ''b'' ''2'',
      std_model = [\<lparr>row_items = [Some 0, Some 1, Some 2, Some 3, Some 4], row_hidden = False\<rparr>,
                   \<lparr>row_items = [Some 5, Some 6, Some 7, Some 8, Some 9], row_hidden = False\<rparr>],
      column_count = 5, editable_columns = {2}, current_filter = [],
      start_timestamp = None, end_timestamp = None\<rparr>"

section \<open>Basic facts\<close>

lemma ebind_simps [simp]:
  "ebind (Inr x) f = f x"
  "ebind (Inl e) f = Inl e"
  by (simp_all add: ebind_def)

section \<open>Basic facts\<close>

lemma ebind_InrE:
  assumes "ebind m f = Inr y"
  obtains x where "m = Inr x" and "f x = Inr y"
  using assms by (cases m) simp_all

lemma py_nth_InrE:
  assumes "py_nth xs i = Inr x"
  obtains "i < length xs" and "x = xs ! i"
  using assms by (auto simp: py_nth_def split: if_splits)





lemma list_index_snoc:
  "x \<notin> set xs \<Longrightarrow> list_index (xs @ [x]) x = Some (length xs)"
  by (induction xs) auto

subsection \<open>The ordered mapping\<close>

lemma map_of_None_iff: "map_of al k = None \<longleftrightarrow> k \<notin> fst ` set al"
  by (simp add: map_of_eq_None_iff)

lemma update_absent: "k \<notin> fst ` set al \<Longrightarrow> AList.update k v al = al @ [(k, v)]"
  by (induction al) auto


lemma delete_absent: "k \<notin> fst ` set al \<Longrightarrow> AList.delete k al = al"
  by (induction al) auto

lemma move_to_end_new:
  "map_of al k = None \<Longrightarrow> move_to_end k (AList.update k v al) = Inr (al @ [(k, v)])"
proof -
  assume "map_of al k = None"
  then have k: "k \<notin> fst ` set al" by (simp add: map_of_None_iff)
  have "AList.delete k (al @ [(k, v)]) = AList.delete k al"
    by (simp add: AList.delete_eq)
  with k have d: "AList.delete k (al @ [(k, v)]) = al" by (simp add: delete_absent)
  from k have "map_of (al @ [(k, v)]) k = Some v"
    by (simp add: map_add_def map_of_None_iff[symmetric])
  with k d show ?thesis by (simp add: move_to_end_def update_absent)
qed

subsection \<open>Cells in the store\<close>

lemma modify_item_fields [simp]:
  "transactions (modify_item a f s) = transactions s"
  "txid_to_items (modify_item a f s) = txid_to_items s"
  "std_model (modify_item a f s) = std_model s"
  "column_count (modify_item a f s) = column_count s"
  "editable_columns (modify_item a f s) = editable_columns s"
  "current_filter (modify_item a f s) = current_filter s"
  "start_timestamp (modify_item a f s) = start_timestamp s"
  "end_timestamp (modify_item a f s) = end_timestamp s"
  "item_store (modify_item a f s) = (item_store s)[a := f (item_store s ! a)]"
  by (simp_all add: modify_item_def)

lemma modify_item_eq: "modify_item a f s = s\<lparr>item_store := (item_store s)[a := f (item_store s ! a)]\<rparr>"
  by (simp add: modify_item_def)

lemma store_step_refl: "store_step A st st"
  by (simp add: store_step_def)

lemma store_step_trans:
  "store_step A st st' \<Longrightarrow> store_step B st' st'' \<Longrightarrow> store_step (A \<union> B) st st''"
  by (simp add: store_step_def)

lemma store_step_mono: "store_step A st st' \<Longrightarrow> A \<subseteq> B \<Longrightarrow> store_step B st st'"
  by (auto simp: store_step_def)

lemma store_step_update:
  "tx_hash_role (f (st ! a)) = tx_hash_role (st ! a) \<Longrightarrow> store_step {a} st (st[a := f (st ! a)])"
  by (cases "a < length st") (auto simp: store_step_def nth_list_update list_update_beyond)

lemma update_item_effect:
  assumes "update_item env s k ms = Inr s'"
  shows "\<exists>st'. s' = s\<lparr>item_store := st'\<rparr>
           \<and> store_step (case map_of (txid_to_items s) k of None \<Rightarrow> {} | Some items \<Rightarrow> set items)
                (item_store s) st'"
proof (cases "map_of (txid_to_items s) k")
  case None
  with assms have "s' = s"
    by (auto simp: update_item_def Let_def split: prod.splits elim!: ebind_InrE)
  then have "s' = s\<lparr>item_store := item_store s\<rparr>" by simp
  with None show ?thesis
    using store_step_refl by (metis option.simps(4))
next
  case (Some items)
  obtain status status_str where st: "get_tx_status env k ms = (status, status_str)"
    by (cases "get_tx_status env k ms")
  from assms Some st obtain icon where
    len: "0 < length items" "1 < length items" and
    s': "s' = modify_item (items ! 1) (\<lambda>c. c\<lparr>cell_text := status_str\<rparr>)
               (modify_item (items ! 0)
                  (\<lambda>c. c\<lparr>cell_icon := Some icon,
                          tool_tip := Some (str_int (ms_conf ms) @ '' confirmation''
                                            @ (if ms_conf ms \<noteq> 1 then ''s'' else [])),
                          data_role := Some (status, ms_conf ms)\<rparr>) s)"
    by (auto simp: update_item_def Let_def elim!: ebind_InrE py_nth_InrE)
  let ?g = "\<lambda>c::cell. c\<lparr>cell_icon := Some icon,
                          tool_tip := Some (str_int (ms_conf ms) @ '' confirmation''
                                            @ (if ms_conf ms \<noteq> 1 then ''s'' else [])),
                          data_role := Some (status, ms_conf ms)\<rparr>"
  let ?h = "\<lambda>c::cell. c\<lparr>cell_text := status_str\<rparr>"
  let ?st1 = "(item_store s)[items ! 0 := ?g (item_store s ! (items ! 0))]"
  let ?st2 = "?st1[items ! 1 := ?h (?st1 ! (items ! 1))]"
  have a: "store_step {items ! 0} (item_store s) ?st1"
    by (rule store_step_update) simp
  have b: "store_step {items ! 1} ?st1 ?st2"
    by (rule store_step_update) simp
  have "store_step ({items ! 0} \<union> {items ! 1}) (item_store s) ?st2"
    by (rule store_step_trans[OF a b])
  moreover have "{items ! 0} \<union> {items ! 1} \<subseteq> set items"
    using len by simp
  ultimately have "store_step (set items) (item_store s) ?st2"
    by (rule store_step_mono)
  moreover have "s' = s\<lparr>item_store := ?st2\<rparr>"
    by (simp add: s' modify_item_def)
  ultimately show ?thesis using Some by auto
qed

subsection \<open>Items of the model\<close>

lemma itemFromIndex_present:
  assumes "i < length (std_model s)" and "row_items (std_model s ! i) = map Some items"
    and "col < length items"
  shows "itemFromIndex s i col = (if col < column_count s then Some (s, items ! col) else None)"
  using assms by (simp add: itemFromIndex_def index_valid_def row_get_def)

lemma upt_shift: "[n..<n + Suc m] = n # [Suc n..<Suc n + m]"
  using upt_conv_Cons[of n "n + Suc m"] by (simp del: upt_Suc)

lemma row_put_end: "row_put (map Some items) (length items) a = map Some (items @ [a])"
  using list_update_length[of "map Some items" None "[]" "Some a"]
  by (simp add: row_put_def)

lemma itemFromIndex_new:
  assumes "i < length (std_model s)" and "row_items (std_model s ! i) = map Some items"
  shows "itemFromIndex s i (length items) =
           (if length items < column_count s
            then Some (s\<lparr>item_store := item_store s @ [QStandardItem []],
                         std_model := (std_model s)[i := (std_model s ! i)
                            \<lparr>row_items := map Some (items @ [length (item_store s)])\<rparr>]\<rparr>,
                       length (item_store s))
            else None)"
  using assms row_put_end[of items "length (item_store s)"]
  by (simp add: itemFromIndex_def index_valid_def row_get_def Let_def)

lemma set_item_properties_eq:
  "\<exists>g. set_item_properties s a i k = s\<lparr>item_store := (item_store s)[a := g (item_store s ! a)]\<rparr>
       \<and> (\<forall>c. tx_hash_role (g c) = Some k)"
  unfolding set_item_properties_def modify_item_def
  by (rule exI[where x = "\<lambda>c. c\<lparr>align_right := (if i > 2 then True else align_right c),
               monospace_font := (if i \<noteq> 1 then True else monospace_font c),
               editable := (if i \<notin> editable_columns s then False else editable c),
               tx_hash_role := Some k\<rparr>"]) simp

lemma row_update_id:
  "i < length rows \<Longrightarrow> row_items (rows ! i) = its \<Longrightarrow> rows[i := (rows ! i)\<lparr>row_items := its\<rparr>] = rows"
  by (simp add: list_update_same_conv)

lemma ensure_effect:
  assumes "ensure s items idx k = Inr (s', items')"
    and "list_index (map fst (transactions s)) k = Some i"
    and "i < length (std_model s)"
    and "row_items (std_model s ! i) = map Some items"
  shows "\<exists>cells.
           s' = s\<lparr>item_store := item_store s @ cells,
                  std_model := (std_model s)[i := (std_model s ! i)\<lparr>row_items := map Some items'\<rparr>]\<rparr>
           \<and> items' = items @ [length (item_store s)..<length (item_store s) + length cells]
           \<and> list_all (\<lambda>c. tx_hash_role c = Some k) cells"
  using assms
proof (induction s items idx k rule: ensure.induct)
  case (1 s items idx k)
  show ?case
  proof (cases "length items < idx + 1")
    case False
    with "1.prems"(1) have eq: "s' = s" "items' = items"
      by (simp_all add: ensure.simps[of s items idx k])
    have "s = s\<lparr>item_store := item_store s @ [],
                std_model := (std_model s)[i := (std_model s ! i)\<lparr>row_items := map Some items\<rparr>]\<rparr>"
      using "1.prems"(3,4) by (simp add: row_update_id)
    with eq show ?thesis
      by (intro exI[where x = "[]"]) simp
  next
    case True
    define n where "n = length (item_store s)"
    define s1 where "s1 = s\<lparr>item_store := item_store s @ [QStandardItem []],
                  std_model := (std_model s)[i := (std_model s ! i)
                     \<lparr>row_items := map Some (items @ [n])\<rparr>]\<rparr>"
    have ifi: "itemFromIndex s i (length items) =
                 (if length items < column_count s then Some (s1, n) else None)"
      unfolding s1_def n_def by (rule itemFromIndex_new[OF "1.prems"(3,4)])
    from "1.prems"(1) True "1.prems"(2) ifi
    have valid: "length items < column_count s"
      by (auto simp: ensure.simps[of s items idx k] split: if_splits)
    with ifi have ifi': "itemFromIndex s i (length items) = Some (s1, n)" by simp
    define s2 where "s2 = set_item_properties s1 n (length items) k"
    from "1.prems"(1) True "1.prems"(2) ifi'
    have rec: "ensure s2 (items @ [n]) idx k = Inr (s', items')"
      by (simp add: ensure.simps[of s items idx k] s2_def)
    obtain g where g: "s2 = s1\<lparr>item_store := (item_store s1)[n := g (item_store s1 ! n)]\<rparr>"
      and role: "\<And>c. tx_hash_role (g c) = Some k"
      using set_item_properties_eq[of s1 n "length items" k] unfolding s2_def by blast
    define c where "c = g (QStandardItem [])"
    have s2: "s2 = s\<lparr>item_store := item_store s @ [c],
                       std_model := (std_model s)[i := (std_model s ! i)
                          \<lparr>row_items := map Some (items @ [n])\<rparr>]\<rparr>"
      by (simp add: g s1_def n_def c_def)
    have p2: "list_index (map fst (transactions s2)) k = Some i"
      using "1.prems"(2) by (simp add: s2)
    have p3: "i < length (std_model s2)"
      using "1.prems"(3) by (simp add: s2)
    have p4: "row_items (std_model s2 ! i) = map Some (items @ [n])"
      using "1.prems"(3) by (simp add: s2)
    have len2: "length (item_store s2) = Suc n"
      by (simp add: s2 n_def)
    from "1.IH"[OF True "1.prems"(2) ifi' refl rec[unfolded s2_def] p2[unfolded s2_def]
        p3[unfolded s2_def] p4[unfolded s2_def], folded s2_def]
    obtain cells where
      c1: "s' = s2\<lparr>item_store := item_store s2 @ cells,
                    std_model := (std_model s2)[i := (std_model s2 ! i)\<lparr>row_items := map Some items'\<rparr>]\<rparr>"
      and c2: "items' = (items @ [n]) @ [length (item_store s2)..<length (item_store s2) + length cells]"
      and c3: "list_all (\<lambda>c. tx_hash_role c = Some k) cells"
      by blast
    have "s' = s\<lparr>item_store := item_store s @ (c # cells),
                 std_model := (std_model s)[i := (std_model s ! i)\<lparr>row_items := map Some items'\<rparr>]\<rparr>"
      using "1.prems"(3) by (simp add: c1 s2)
    moreover have "items' = items @ [n..<n + length (c # cells)]"
      unfolding c2 len2 using upt_shift[of n "length cells"] by (simp del: upt_Suc)
    moreover have "list_all (\<lambda>c. tx_hash_role c = Some k) (c # cells)"
      using c3 role by (simp add: c_def)
    ultimately show ?thesis unfolding n_def by blast
  qed
qed

subsection \<open>\<open>hide_row\<close> on a row whose cells exist\<close>

lemma filter_loop_effect:
  assumes "i < length (std_model s)" and "row_items (std_model s ! i) = map Some items"
    and "list_all (\<lambda>c. c < length items) cols"
    and "filter_loop s i cols = Inr (s1, b)"
  shows "s1 = s"
  using assms
proof (induction cols)
  case Nil
  then show ?case by simp
next
  case (Cons c cols)
  from Cons.prems have "itemFromIndex s i c = (if c < column_count s then Some (s, items ! c) else None)"
    using itemFromIndex_present[of i s items c] by simp
  with Cons show ?case
    by (auto split: if_splits)
qed

lemma hide_row_effect:
  assumes "i < length (std_model s)" and "row_items (std_model s ! i) = map Some items"
    and "4 \<le> length items" and "hide_row s i = Inr s'"
  shows "\<exists>b. s' = s\<lparr>std_model := (std_model s)[i := (std_model s ! i)\<lparr>row_hidden := b\<rparr>]\<rparr>"
proof -
  let ?cols = "if current_filter s = [] then [] else filter_columns"
  from assms(4) obtain s1 found where
    fl: "filter_loop s i ?cols = Inr (s1, found)"
    and rest: "(if found then Inr (setRowHidden s1 i False)
          else if start_timestamp s1 \<noteq> None \<and> end_timestamp s1 \<noteq> None then
            (case itemFromIndex s1 i 0 of
               None \<Rightarrow> Inl AttributeError
             | Some (s2, a) \<Rightarrow>
                 (case tx_hash_role (item_store s2 ! a) of
                    None \<Rightarrow> Inl KeyError
                  | Some k \<Rightarrow>
                      (case map_of (transactions s2) k of
                         None \<Rightarrow> Inl KeyError
                       | Some tx \<Rightarrow>
                           (case date tx of
                              Some d \<Rightarrow>
                                if \<not> (the (start_timestamp s2) \<le> d \<and> d \<le> the (end_timestamp s2))
                                then Inr (setRowHidden s2 i True)
                                else Inr (setRowHidden s2 i False)
                            | None \<Rightarrow> Inr (setRowHidden s2 i False)))))
          else Inr (setRowHidden s1 i False)) = Inr s'"
    unfolding hide_row_def by (elim ebind_InrE) (auto split: prod.splits)
  have "list_all (\<lambda>c. c < length items) ?cols"
    using assms(3) by (simp add: filter_columns_def)
  from filter_loop_effect[OF assms(1,2) this fl] have s1: "s1 = s" .
  have "0 < length items" using assms(3) by (cases items) simp_all
  note ifi = itemFromIndex_present[OF assms(1,2) this]
  from rest s1 ifi have "\<exists>b. s' = setRowHidden s i b"
    by (auto split: if_splits option.splits)
  then show ?thesis
    using assms(1) by (auto simp: setRowHidden_def)
qed

subsection \<open>Steps that rewrite cells only\<close>

lemma cell_step_refl: "cell_step A s s"
proof -
  have "s = s\<lparr>item_store := item_store s\<rparr>" by simp
  then show ?thesis unfolding cell_step_def using store_step_refl by blast
qed

lemma cell_step_trans:
  assumes "cell_step A s s'" and "cell_step B s' s''"
  shows "cell_step (A \<union> B) s s''"
proof -
  from assms(1) obtain st' where 1: "s' = s\<lparr>item_store := st'\<rparr>" "store_step A (item_store s) st'"
    unfolding cell_step_def by blast
  from assms(2) obtain st'' where 2: "s'' = s'\<lparr>item_store := st''\<rparr>" "store_step B (item_store s') st''"
    unfolding cell_step_def by blast
  from 1 2 have "s'' = s\<lparr>item_store := st''\<rparr>" by simp
  moreover from 1 2 have "store_step (A \<union> B) (item_store s) st''"
    using store_step_trans by simp
  ultimately show ?thesis unfolding cell_step_def by blast
qed

lemma cell_step_mono: "cell_step A s s' \<Longrightarrow> A \<subseteq> B \<Longrightarrow> cell_step B s s'"
  unfolding cell_step_def using store_step_mono by blast

lemma cell_step_modify:
  assumes "\<And>c. tx_hash_role (f c) = tx_hash_role c"
  shows "cell_step {a} s (modify_item a f s)"
  unfolding cell_step_def modify_item_eq
  using store_step_update[of f "item_store s" a] assms by blast

lemma cell_step_update_item:
  assumes "update_item env s k ms = Inr s'" and "map_of (txid_to_items s) k = Some items"
  shows "cell_step (set items) s s'"
  using update_item_effect[OF assms(1)] assms(2) unfolding cell_step_def by simp

subsection \<open>\<open>update_fiat\<close>\<close>

lemma cell_step_modify_in:
  assumes "a \<in> A" and "\<And>c. tx_hash_role (f c) = tx_hash_role c"
  shows "cell_step A s (modify_item a f s)"
  using cell_step_mono[OF cell_step_modify[of f a s]] assms by simp

lemma cell_step_then_modify:
  assumes "cell_step A s s1" and "a \<in> A" and "\<And>c. tx_hash_role (f c) = tx_hash_role c"
  shows "cell_step A s (modify_item a f s1)"
  using cell_step_trans[OF assms(1) cell_step_modify_in[of a A f s1]] assms(2,3) by simp

lemma ebind_eq_Inr_iff: "ebind m f = Inr y \<longleftrightarrow> (\<exists>x. m = Inr x \<and> f x = Inr y)"
  by (cases m) simp_all

lemma py_nth_eq_Inr_iff: "py_nth xs i = Inr x \<longleftrightarrow> i < length xs \<and> x = xs ! i"
  by (auto simp: py_nth_def)

lemma opt_err_Inr_iff: "(case x of None \<Rightarrow> Inl e | Some y \<Rightarrow> Inr y) = Inr z \<longleftrightarrow> x = Some z"
  by (cases x) simp_all

lemmas Inr_iffs = ebind_eq_Inr_iff py_nth_eq_Inr_iff opt_err_Inr_iff

lemma update_fiat_tail:
  assumes "(if c then
               ebind (py_nth items 6) (\<lambda>i6.
               ebind (case ap0 of None \<Rightarrow> Inl KeyError | Some ap \<Rightarrow> Inr ap) (\<lambda>ap.
               ebind (py_nth items 7) (\<lambda>i7.
               ebind (case cg0 of None \<Rightarrow> Inl KeyError | Some cg \<Rightarrow> Inr cg) (\<lambda>cg.
                 Inr (modify_item i7 (\<lambda>c. c\<lparr>cell_text := g cg\<rparr>)
                       (modify_item i6 (\<lambda>c. c\<lparr>cell_text := g ap\<rparr>) s3))))))
             else Inr s3) = Inr s'"
    and "cell_step (set items) s2 s3"
  shows "cell_step (set items) s2 s'"
proof (cases c)
  case False
  with assms show ?thesis by simp
next
  case True
  with assms(1) obtain ap cg where n6: "6 < length items" and n7: "7 < length items"
    and s': "s' = modify_item (items ! 7) (\<lambda>c. c\<lparr>cell_text := g cg\<rparr>)
                       (modify_item (items ! 6) (\<lambda>c. c\<lparr>cell_text := g ap\<rparr>) s3)"
    by (simp add: Inr_iffs) blast
  from n6 n7 have m6: "items ! 6 \<in> set items" and m7: "items ! 7 \<in> set items" by simp_all
  show ?thesis
    unfolding s'
    by (rule cell_step_then_modify[OF cell_step_then_modify[OF assms(2) m6] m7]) simp_all
qed

lemma update_fiat_shape:
  assumes "update_fiat env s k row = Inr s'" and "map_of (txid_to_items s) k = Some items0"
  shows "\<exists>s1 items.
           ensure s items0 (if get_history_capital_gains_config env then 7 else 5) k = Inr (s1, items)
           \<and> cell_step (set items) (s1\<lparr>txid_to_items := AList.update k items (txid_to_items s1)\<rparr>) s'"
  using assms(1) unfolding update_fiat_def Let_def assms(2) option.case
  apply (rule ebind_InrE)
  subgoal for x
    apply (cases x)
    subgoal for s1 items
      apply (simp only: prod.case)
      apply (erule ebind_InrE)+
      apply (rule exI[of _ s1], rule exI[of _ items], rule conjI, rule refl)
      apply (erule update_fiat_tail)
      apply (rule cell_step_modify_in)
       apply (erule py_nth_InrE, simp)
      apply simp
      done
    done
  done

lemma update_fiat_effect:
  assumes "update_fiat env s k row = Inr s'"
    and "list_index (map fst (transactions s)) k = Some i"
    and "i < length (std_model s)"
    and "map_of (txid_to_items s) k = Some items0"
    and "row_items (std_model s ! i) = map Some items0"
  shows "\<exists>cells items' st'.
           s' = s\<lparr>txid_to_items := AList.update k items' (txid_to_items s),
                  item_store := st',
                  std_model := (std_model s)[i := (std_model s ! i)\<lparr>row_items := map Some items'\<rparr>]\<rparr>
           \<and> items' = items0 @ [length (item_store s)..<length (item_store s) + length cells]
           \<and> list_all (\<lambda>c. tx_hash_role c = Some k) cells
           \<and> store_step (set items') (item_store s @ cells) st'"
proof -
  from update_fiat_shape[OF assms(1,4)] obtain s1 items where
    en: "ensure s items0 (if get_history_capital_gains_config env then 7 else 5) k = Inr (s1, items)"
    and cs: "cell_step (set items) (s1\<lparr>txid_to_items := AList.update k items (txid_to_items s1)\<rparr>) s'"
    by blast
  from ensure_effect[OF en assms(2,3,5)] obtain cells where
    s1: "s1 = s\<lparr>item_store := item_store s @ cells,
                std_model := (std_model s)[i := (std_model s ! i)\<lparr>row_items := map Some items\<rparr>]\<rparr>"
    and items: "items = items0 @ [length (item_store s)..<length (item_store s) + length cells]"
    and roles: "list_all (\<lambda>c. tx_hash_role c = Some k) cells"
    by blast
  from cs obtain st' where
    s': "s' = (s1\<lparr>txid_to_items := AList.update k items (txid_to_items s1)\<rparr>)\<lparr>item_store := st'\<rparr>"
    and st: "store_step (set items) (item_store (s1\<lparr>txid_to_items := AList.update k items (txid_to_items s1)\<rparr>)) st'"
    unfolding cell_step_def by blast
  have "s' = s\<lparr>txid_to_items := AList.update k items (txid_to_items s),
               item_store := st',
               std_model := (std_model s)[i := (std_model s ! i)\<lparr>row_items := map Some items\<rparr>]\<rparr>"
    by (simp add: s' s1)
  moreover have "store_step (set items) (item_store s @ cells) st'"
    using st by (simp add: s1)
  ultimately show ?thesis using items roles by blast
qed

subsection \<open>The cells of a new row\<close>

lemma update_update_same: "AList.update k v (AList.update k w al) = AList.update k v al"
  by (induction al) auto


lemma map_of_update_same: "map_of (AList.update k v al) k = Some v"
  by (simp add: update_conv)


lemma store_step_tail:
  assumes "store_step A (st @ cs) st'" and "\<forall>a\<in>A. length st \<le> a"
    and "list_all (\<lambda>c. tx_hash_role c = Some k) cs"
  shows "\<exists>cs'. st' = st @ cs' \<and> length cs' = length cs
           \<and> list_all (\<lambda>c. tx_hash_role c = Some k) cs'"
proof -
  from assms(1) have len: "length st' = length st + length cs"
    and role: "\<And>a. tx_hash_role (st' ! a) = tx_hash_role ((st @ cs) ! a)"
    and same: "\<And>a. a \<notin> A \<Longrightarrow> st' ! a = (st @ cs) ! a"
    by (simp_all add: store_step_def)
  let ?cs' = "drop (length st) st'"
  have "take (length st) st' = st"
  proof (rule nth_equalityI)
    show "length (take (length st) st') = length st" using len by simp
  next
    fix i assume "i < length (take (length st) st')"
    then have i: "i < length st" by simp
    with assms(2) have "i \<notin> A" by auto
    from same[OF this] i show "take (length st) st' ! i = st ! i"
      by (simp add: nth_append)
  qed
  then have "st' = st @ ?cs'" by (metis append_take_drop_id)
  moreover have "length ?cs' = length cs" using len by simp
  moreover have "list_all (\<lambda>c. tx_hash_role c = Some k) ?cs'"
    unfolding list_all_length
  proof (intro allI impI)
    fix i assume "i < length ?cs'"
    then have i: "i < length cs" using len by simp
    then have "?cs' ! i = st' ! (length st + i)" using len by simp
    also have "tx_hash_role \<dots> = tx_hash_role ((st @ cs) ! (length st + i))" by (rule role)
    also have "\<dots> = tx_hash_role (cs ! i)" by simp
    also have "\<dots> = Some k" using assms(3) i by (simp add: list_all_length)
    finally show "tx_hash_role (?cs' ! i) = Some k" .
  qed
  ultimately show ?thesis by blast
qed

lemma set_all_properties_effect:
  "\<exists>st'. set_all_properties s as i k = s\<lparr>item_store := st'\<rparr>
     \<and> length st' = length (item_store s)
     \<and> (\<forall>a\<in>set as. a < length (item_store s) \<longrightarrow> tx_hash_role (st' ! a) = Some k)
     \<and> (\<forall>a. a \<notin> set as \<longrightarrow> st' ! a = item_store s ! a)"
proof (induction as arbitrary: s i)
  case Nil
  have "s = s\<lparr>item_store := item_store s\<rparr>" by simp
  then show ?case by (intro exI[where x = "item_store s"]) simp
next
  case (Cons a as)
  obtain g where g: "set_item_properties s a i k
        = s\<lparr>item_store := (item_store s)[a := g (item_store s ! a)]\<rparr>"
    and role: "\<And>c. tx_hash_role (g c) = Some k"
    using set_item_properties_eq[of s a i k] by blast
  define s1 where "s1 = set_item_properties s a i k"
  have st1: "item_store s1 = (item_store s)[a := g (item_store s ! a)]"
    by (simp add: s1_def g)
  from Cons.IH[of s1 "Suc i"] obtain st' where
    1: "set_all_properties s1 as (Suc i) k = s1\<lparr>item_store := st'\<rparr>"
    and 2: "length st' = length (item_store s1)"
    and 3: "\<forall>b\<in>set as. b < length (item_store s1) \<longrightarrow> tx_hash_role (st' ! b) = Some k"
    and 4: "\<forall>b. b \<notin> set as \<longrightarrow> st' ! b = item_store s1 ! b"
    by blast
  have a: "set_all_properties s (a # as) i k = s\<lparr>item_store := st'\<rparr>"
    using 1 by (simp add: s1_def[symmetric]) (simp add: s1_def g)
  have b: "length st' = length (item_store s)" using 2 st1 by simp
  have c: "\<forall>b\<in>set (a # as). b < length (item_store s) \<longrightarrow> tx_hash_role (st' ! b) = Some k"
  proof (intro ballI impI)
    fix b assume b: "b \<in> set (a # as)" and lt: "b < length (item_store s)"
    show "tx_hash_role (st' ! b) = Some k"
    proof (cases "b \<in> set as")
      case True
      with 3 lt st1 show ?thesis by simp
    next
      case False
      with b have "b = a" by simp
      with False 4 st1 lt role show ?thesis by simp
    qed
  qed
  have d: "\<forall>b. b \<notin> set (a # as) \<longrightarrow> st' ! b = item_store s ! b"
    using 4 st1 by simp
  from a b c d show ?case by blast
qed

lemma new_row_items_effect:
  assumes "new_row_items s k entry hasinv val = (s', item)" and "length entry = 5"
  shows "\<exists>cells. s' = s\<lparr>item_store := item_store s @ cells,
                          txid_to_items := AList.update k item (txid_to_items s)\<rparr>
           \<and> length cells = 5
           \<and> item = [length (item_store s)..<length (item_store s) + 5]
           \<and> list_all (\<lambda>c. tx_hash_role c = Some k) cells"
proof -
  define n where "n = length (item_store s)"
  define st1 where "st1 = item_store s @ map QStandardItem entry"
  define s1 where "s1 = s\<lparr>item_store := st1\<rparr>"
  define s2 where "s2 = (if hasinv
                then modify_item (item ! 2) (\<lambda>c. c\<lparr>cell_icon := Some '':icons/seal''\<rparr>) s1
                else s1)"
  define s3 where "s3 = set_all_properties s2 item 0 k"
  define s4 where "s4 = (if (case val of None \<Rightarrow> False | Some v \<Rightarrow> (v \<noteq> 0 \<and> v < 0))
                then modify_item (item ! 3) (\<lambda>c. c\<lparr>foreground := Some red_brush\<rparr>)
                       (modify_item (item ! 2) (\<lambda>c. c\<lparr>foreground := Some red_brush\<rparr>) s3)
                else s3)"
  have "snd (new_row_items s k entry hasinv val) = [n..<n + 5]"
    using assms(2) by (simp add: new_row_items_def new_items_def Let_def n_def)
  with assms(1) have item: "item = [n..<n + 5]" by simp
  have "fst (new_row_items s k entry hasinv val)
          = s4\<lparr>txid_to_items := AList.update k item (txid_to_items s4)\<rparr>"
    unfolding new_row_items_def new_items_def Let_def prod.case fst_conv
      s4_def s3_def s2_def s1_def st1_def item n_def assms(2) ..
  with assms(1) have s': "s' = s4\<lparr>txid_to_items := AList.update k item (txid_to_items s4)\<rparr>"
    by simp
  have m2: "item ! 2 \<in> set item" and m3: "item ! 3 \<in> set item"
    unfolding item by simp_all
  have c12: "cell_step (set item) s1 s2"
    unfolding s2_def using cell_step_modify_in[OF m2] cell_step_refl by simp
  have c34: "cell_step (set item) s3 s4"
    unfolding s4_def
    using cell_step_then_modify[OF cell_step_modify_in[OF m2] m3, of _ _ s3] cell_step_refl
    by simp
  from c12 obtain st2 where s2: "s2 = s1\<lparr>item_store := st2\<rparr>"
    and ss12: "store_step (set item) st1 st2"
    unfolding cell_step_def by (auto simp: s1_def)
  from set_all_properties_effect[of s2 item 0 k] obtain st3 where
    s3: "s3 = s2\<lparr>item_store := st3\<rparr>" and len3: "length st3 = length st2"
    and role3: "\<forall>a\<in>set item. a < length st2 \<longrightarrow> tx_hash_role (st3 ! a) = Some k"
    and same3: "\<forall>a. a \<notin> set item \<longrightarrow> st3 ! a = st2 ! a"
    unfolding s3_def by (auto simp: s2)
  from c34 obtain st4 where s4: "s4 = s3\<lparr>item_store := st4\<rparr>"
    and ss34: "store_step (set item) st3 st4"
    unfolding cell_step_def by (auto simp: s3)
  have len1: "length st1 = n + 5" by (simp add: st1_def n_def assms(2))
  from ss12 have len2: "length st2 = n + 5" and same2: "\<And>a. a \<notin> set item \<Longrightarrow> st2 ! a = st1 ! a"
    by (simp_all add: store_step_def len1)
  from ss34 have len4: "length st4 = n + 5" and same4: "\<And>a. a \<notin> set item \<Longrightarrow> st4 ! a = st3 ! a"
    and role4: "\<And>a. tx_hash_role (st4 ! a) = tx_hash_role (st3 ! a)"
    by (simp_all add: store_step_def len3 len2)
  let ?cells = "drop n st4"
  have "take n st4 = item_store s"
  proof (rule nth_equalityI)
    show "length (take n st4) = length (item_store s)" using len4 by (simp add: n_def)
  next
    fix i assume "i < length (take n st4)"
    then have i: "i < n" by simp
    then have "i \<notin> set item" by (simp add: item)
    with same4 same3 same2 have "st4 ! i = st1 ! i" by simp
    with i show "take n st4 ! i = item_store s ! i"
      by (simp add: st1_def n_def nth_append)
  qed
  then have st4: "st4 = item_store s @ ?cells" by (metis append_take_drop_id)
  have "list_all (\<lambda>c. tx_hash_role c = Some k) ?cells"
    unfolding list_all_length
  proof (intro allI impI)
    fix i assume "i < length ?cells"
    then have i: "i < 5" using len4 by simp
    then have mem: "n + i \<in> set item" by (simp add: item)
    from i len4 have "?cells ! i = st4 ! (n + i)" by simp
    moreover have "tx_hash_role (st4 ! (n + i)) = Some k"
      using role4[of "n + i"] role3 mem i len2 by simp
    ultimately show "tx_hash_role (?cells ! i) = Some k" by simp
  qed
  moreover have "length ?cells = 5" using len4 by simp
  moreover have "s' = s\<lparr>item_store := item_store s @ ?cells,
                          txid_to_items := AList.update k item (txid_to_items s)\<rparr>"
    using st4 by (simp add: s' s4 s3 s2 s1_def)
  ultimately show ?thesis using item unfolding n_def by blast
qed

subsection \<open>\<open>insert_tx\<close>\<close>

lemma insert_tx_steps:
  assumes "insert_tx env s tx = Inr s'"
  shows "\<exists>s5 ms s6 entry hasinv item s8.
           update_item env s5 (txid tx) ms = Inr s6
           \<and> new_row_items s (txid tx) entry hasinv (sat_value (tx_value tx)) = (s5, item)
           \<and> length entry = 5
           \<and> (if show_history env then update_fiat env (insertRow s6 item) (txid tx) tx
               else Inr (insertRow s6 item)) = Inr s8
           \<and> hide_row s8 (length (std_model s6)) = Inr s'"
  using assms unfolding insert_tx_def Let_def case_prod_beta
  apply (rule ebind_InrE)
  apply (erule ebind_InrE)+
  apply (intro exI conjI)
      apply assumption
     apply (rule surjective_pairing)
    apply simp
   apply assumption
  apply assumption
  done

lemma upt_append_fresh: "[n..<n + a] @ [n + a..<n + a + b] = [n..<n + (a + b)]"
  using upt_add_eq_append[of n "n + a" b] by (simp add: add.assoc)

lemma insert_tx_effect:
  assumes ins: "insert_tx env s tx = Inr s'"
    and idx: "list_index (map fst (transactions s)) (txid tx) = Some (length (std_model s))"
  shows "\<exists>items cells hid.
       s' = s\<lparr>txid_to_items := AList.update (txid tx) items (txid_to_items s),
              item_store := item_store s @ cells,
              std_model := std_model s @ [\<lparr>row_items = map Some items, row_hidden = hid\<rparr>],
              column_count := max (column_count s) 5\<rparr>
       \<and> items = [length (item_store s)..<length (item_store s) + length cells]
       \<and> 5 \<le> length cells
       \<and> list_all (\<lambda>c. tx_hash_role c = Some (txid tx)) cells"
proof -
  let ?k = "txid tx"
  define n where "n = length (item_store s)"
  define i where "i = length (std_model s)"
  from insert_tx_steps[OF ins] obtain s5 ms s6 entry hasinv item s8 where
    ui: "update_item env s5 ?k ms = Inr s6"
    and nri: "new_row_items s ?k entry hasinv (sat_value (tx_value tx)) = (s5, item)"
    and len: "length entry = 5"
    and uf: "(if show_history env then update_fiat env (insertRow s6 item) ?k tx
               else Inr (insertRow s6 item)) = Inr s8"
    and hr: "hide_row s8 (length (std_model s6)) = Inr s'"
    by blast
  from new_row_items_effect[OF nri len] obtain cells5 where
    s5: "s5 = s\<lparr>item_store := item_store s @ cells5,
                 txid_to_items := AList.update ?k item (txid_to_items s)\<rparr>"
    and l5: "length cells5 = 5" and item: "item = [n..<n + 5]"
    and r5: "list_all (\<lambda>c. tx_hash_role c = Some ?k) cells5"
    unfolding n_def by blast
  have fresh: "\<forall>a\<in>set item. length (item_store s) \<le> a"
    by (simp add: item n_def)
  have m5: "map_of (txid_to_items s5) ?k = Some item"
    by (simp add: s5 map_of_update_same)
  from cell_step_update_item[OF ui m5] obtain st6 where
    s6: "s6 = s5\<lparr>item_store := st6\<rparr>"
    and ss6: "store_step (set item) (item_store s5) st6"
    unfolding cell_step_def by blast
  from ss6 have "store_step (set item) (item_store s @ cells5) st6" by (simp add: s5)
  from store_step_tail[OF this fresh r5] l5 obtain cells6 where
    st6: "st6 = item_store s @ cells6" and l6: "length cells6 = 5"
    and r6: "list_all (\<lambda>c. tx_hash_role c = Some ?k) cells6"
    by auto
  define s7 where "s7 = insertRow s6 item"
  have s7: "s7 = s\<lparr>txid_to_items := AList.update ?k item (txid_to_items s),
                    item_store := item_store s @ cells6,
                    std_model := std_model s @ [\<lparr>row_items = map Some item, row_hidden = False\<rparr>],
                    column_count := max (column_count s) 5\<rparr>"
    by (simp add: s7_def insertRow_def s6 s5 st6 item)
  have hr': "hide_row s8 i = Inr s'"
    using hr by (simp add: s6 s5 i_def)
  have "\<exists>items cells.
       s8 = s\<lparr>txid_to_items := AList.update ?k items (txid_to_items s),
              item_store := item_store s @ cells,
              std_model := std_model s @ [\<lparr>row_items = map Some items, row_hidden = False\<rparr>],
              column_count := max (column_count s) 5\<rparr>
       \<and> items = [n..<n + length cells]
       \<and> 5 \<le> length cells
       \<and> list_all (\<lambda>c. tx_hash_role c = Some ?k) cells"
  proof (cases "show_history env")
    case False
    with uf have "s8 = s7" by (simp add: s7_def)
    with s7 have "s8 = s\<lparr>txid_to_items := AList.update ?k item (txid_to_items s),
                    item_store := item_store s @ cells6,
                    std_model := std_model s @ [\<lparr>row_items = map Some item, row_hidden = False\<rparr>],
                    column_count := max (column_count s) 5\<rparr>"
      by simp
    moreover have "item = [n..<n + length cells6]" using item l6 by simp
    moreover have "5 \<le> length cells6" using l6 by simp
    ultimately show ?thesis using r6 by blast
  next
    case True
    with uf have uf': "update_fiat env s7 ?k tx = Inr s8" by (simp add: s7_def)
    have p2: "list_index (map fst (transactions s7)) ?k = Some i"
      using idx by (simp add: s7 i_def)
    have p3: "i < length (std_model s7)" by (simp add: s7 i_def)
    have p4: "map_of (txid_to_items s7) ?k = Some item"
      by (simp add: s7 map_of_update_same)
    have p5: "row_items (std_model s7 ! i) = map Some item"
      by (simp add: s7 i_def)
    from update_fiat_effect[OF uf' p2 p3 p4 p5] obtain cells items' st' where
      s8: "s8 = s7\<lparr>txid_to_items := AList.update ?k items' (txid_to_items s7),
                  item_store := st',
                  std_model := (std_model s7)[i := (std_model s7 ! i)\<lparr>row_items := map Some items'\<rparr>]\<rparr>"
      and items': "items' = item @ [length (item_store s7)..<length (item_store s7) + length cells]"
      and rc: "list_all (\<lambda>c. tx_hash_role c = Some ?k) cells"
      and ss8: "store_step (set items') (item_store s7 @ cells) st'"
      by blast
    have len7: "length (item_store s7) = n + 5" by (simp add: s7 l6 n_def)
    have items'': "items' = [n..<n + (5 + length cells)]"
      unfolding items' item len7 by (rule upt_append_fresh)
    have fresh': "\<forall>a\<in>set items'. length (item_store s) \<le> a"
      by (simp add: items'' n_def)
    from ss8 have "store_step (set items') (item_store s @ (cells6 @ cells)) st'"
      by (simp add: s7)
    from store_step_tail[OF this fresh', of ?k] r6 rc obtain cells8 where
      st': "st' = item_store s @ cells8" and l8: "length cells8 = length (cells6 @ cells)"
      and r8: "list_all (\<lambda>c. tx_hash_role c = Some ?k) cells8"
      by auto
    have rows: "(std_model s7)[i := (std_model s7 ! i)\<lparr>row_items := map Some items'\<rparr>]
                 = std_model s @ [\<lparr>row_items = map Some items', row_hidden = False\<rparr>]"
      by (simp add: s7 i_def)
    have "s8 = s\<lparr>txid_to_items := AList.update ?k items' (txid_to_items s),
              item_store := item_store s @ cells8,
              std_model := std_model s @ [\<lparr>row_items = map Some items', row_hidden = False\<rparr>],
              column_count := max (column_count s) 5\<rparr>"
      unfolding s8 rows st' by (simp add: s7 update_update_same)
    moreover have "items' = [n..<n + length cells8]"
      using items'' l8 l6 by simp
    moreover have "5 \<le> length cells8" using l8 l6 by simp
    ultimately show ?thesis using r8 by blast
  qed
  then obtain items cells where
    s8: "s8 = s\<lparr>txid_to_items := AList.update ?k items (txid_to_items s),
              item_store := item_store s @ cells,
              std_model := std_model s @ [\<lparr>row_items = map Some items, row_hidden = False\<rparr>],
              column_count := max (column_count s) 5\<rparr>"
    and items: "items = [n..<n + length cells]"
    and l: "5 \<le> length cells"
    and r: "list_all (\<lambda>c. tx_hash_role c = Some ?k) cells"
    by blast
  have q1: "i < length (std_model s8)" by (simp add: s8 i_def)
  have q2: "row_items (std_model s8 ! i) = map Some items" by (simp add: s8 i_def)
  have q3: "4 \<le> length items" using l by (simp add: items)
  from hide_row_effect[OF q1 q2 q3 hr'] obtain b where
    "s' = s8\<lparr>std_model := (std_model s8)[i := (std_model s8 ! i)\<lparr>row_hidden := b\<rparr>]\<rparr>"
    by blast
  then have "s' = s\<lparr>txid_to_items := AList.update ?k items (txid_to_items s),
              item_store := item_store s @ cells,
              std_model := std_model s @ [\<lparr>row_items = map Some items, row_hidden = b\<rparr>],
              column_count := max (column_count s) 5\<rparr>"
    by (simp add: s8 i_def)
  with items l r show ?thesis unfolding n_def by blast
qed

subsection \<open>The invariant under the insertion of a row\<close>











subsection \<open>The invariant under the update of a row in place\<close>





subsection \<open>The walk over the fetched rows\<close>









subsection \<open>The removal of the rows that were not seen\<close>






subsection \<open>\<open>update\<close> and the constructor\<close>










section \<open>The claims on the paths without reconciliation\<close>

text \<open>
  C3. When the fetched list (after \<open>limit_confirmations\<close>, as \<open>update\<close> compares it)
  equals the list of the displayed records, \<open>update\<close> returns the view as it was:
  the mapping, the table of items, the rows and every cell are unchanged.
\<close>

theorem update_unchanged:
  assumes "limit_confirmations fetched = map snd (transactions s)"
  shows "update env fetched s = Inr s"
  using assms by (simp add: update_def)

theorem update_unchanged_witness:
  "limit_confirmations [tx0 ''a'' 1, tx0 ''b'' 2] = map snd (transactions view2)
   \<and> update wallet0 [tx0 ''a'' 1, tx0 ''b'' 2] view2 = Inr view2"
proof -
  have h: "limit_confirmations [tx0 ''a'' 1, tx0 ''b'' 2] = map snd (transactions view2)"
    by (simp add: limit_confirmations_def tx0_def view2_def)
  from update_unchanged[OF h] h show ?thesis by simp
qed

text \<open>
  C6. The claim says that a row is visible exactly when it passes the text filter
  and the date filter. In \<open>hide_row\<close> the \<open>else\<close> branch of the loop over the
  filter columns, which runs when the filter string was found in no column, ends
  by showing the row: with the filter \<open>xyz\<close>, no date range, and a row whose
  filter columns read \<open>ok\<close>, \<open>lbl\<close> and \<open>7\<close>, the row fails the text filter
  of the claim and \<open>hide_row\<close> leaves it visible.
\<close>

theorem hide_row_shows_unmatched_row:
  "map (\<lambda>a. cell_text (item_store view1 ! a)) filter_columns = [''ok'', ''lbl'', ''7'']
   \<and> \<not> spec_visible ''xyz'' [''ok'', ''lbl'', ''7''] None None (Some 5)
   \<and> hide_row (view1\<lparr>current_filter := ''xyz''\<rparr>) 0 = Inr (view1\<lparr>current_filter := ''xyz''\<rparr>)
   \<and> row_hidden (std_model (view1\<lparr>current_filter := ''xyz''\<rparr>) ! 0) = False"
  by code_simp





text \<open>
  C8. When the export raises an I/O error, \<open>export_history_dialog\<close> catches it and
  shows the critical dialog with the reason; the handler then returns normally.
  \<open>self.update()\<close> runs before the \<open>try\<close> block, so the statement is for a call
  in which it returned.
\<close>

theorem export_history_dialog_io_error:
  assumes "update env fetched s = Inr s1"
    and "do_export_history write_file s1 filename is_csv = Inl (IOError reason)"
    and "filename \<noteq> []"
  shows "export_history_dialog env write_file fetched s True filename is_csv =
           Inr (s1, [show_critical (''Electrum was unable to produce a transaction export.''
                                   @ [CHR 0x0A] @ reason)])"
  using assms by (simp add: export_history_dialog_def)

theorem export_history_dialog_io_error_witness:
  "update wallet0 [tx0 ''a'' 1, tx0 ''b'' 2] view2 = Inr view2
   \<and> do_export_history (\<lambda>f c. Some (IOError ''disk full'')) view2 ''h.csv'' True = Inl (IOError ''disk full'')
   \<and> ''h.csv'' \<noteq> []
   \<and> export_history_dialog wallet0 (\<lambda>f c. Some (IOError ''disk full'')) [tx0 ''a'' 1, tx0 ''b'' 2] view2 True ''h.csv'' True =
       Inr (view2, [show_critical (''Electrum was unable to produce a transaction export.''
                                   @ [CHR 0x0A] @ ''disk full'')])"
proof -
  have u: "update wallet0 [tx0 ''a'' 1, tx0 ''b'' 2] view2 = Inr view2"
    by (simp add: update_def limit_confirmations_def tx0_def view2_def)
  have d: "do_export_history (\<lambda>f c. Some (IOError ''disk full'')) view2 ''h.csv'' True = Inl (IOError ''disk full'')"
    by (simp add: do_export_history_def Let_def view2_def tx0_def csv_line_def)
  have f: "''h.csv'' \<noteq> []" by simp
  from export_history_dialog_io_error[OF u d f] u d show ?thesis by simp
qed

text \<open>
  C9. The claim says that \<open>onFileAdded\<close> catches the failure that a malformed file
  causes and reports it. A dropped file whose bytes are no text in the codec of
  the locale (here the byte \<open>0xFF\<close> and the codec \<open>ascii\<close>) makes \<open>f.read()\<close>
  raise \<open>UnicodeDecodeError\<close> inside the \<open>try\<close> block. The \<open>except\<close> clause names
  \<open>IOError\<close> only, so no dialog is shown and the exception leaves the handler.
\<close>

theorem onFileAdded_undecodable_file_escapes:
  "onFileAdded \<lparr>open_file = (\<lambda>fn. Inr [CHR 0xFF]),
                decode_text = ascii_codec,
                tx_from_text = (\<lambda>txt. (Inr None :: error + unit option)),
                save_transaction_into_wallet = (\<lambda>tx. Inr True)\<rparr> ''dropped.txn''
     = Inl UnicodeDecodeError"
  by (simp add: onFileAdded_def ascii_codec_def is_ascii_def)

section \<open>The fast path of \<open>update\<close>\<close>

text \<open>
  C2. The claim says that \<open>update\<close> appends exactly one row whenever the fetched
  list is the displayed list plus one trailing entry. When the hash of the trailing
  entry is already displayed, \<open>update\<close> leaves the fast path and walks the whole
  list: with the view of \<open>tx0 ''a'' 1\<close> and the fetched list
  \<open>[tx0 ''a'' 1, tx0 ''a'' 3]\<close> no row is appended, and the row of \<open>a\<close> is
  updated in place (its record and its balance cell).
\<close>

theorem update_trailing_entry_with_displayed_hash:
  "butlast (limit_confirmations [tx0 ''a'' 1, tx0 ''a'' 3]) = map snd (transactions view1)
   \<and> update wallet0 [tx0 ''a'' 1, tx0 ''a'' 3] view1 =
       Inr (view1\<lparr>transactions := [(''a'', tx0 ''a'' 3)], item_store := cells0 ''a'' ''3''\<rparr>)
   \<and> std_model (view1\<lparr>transactions := [(''a'', tx0 ''a'' 3)], item_store := cells0 ''a'' ''3''\<rparr>)
       = std_model view1"
  by code_simp

text \<open>
  C2, as the code has it. When the fetched list is the displayed list plus one
  trailing entry whose hash is not displayed yet, and the model has one row per
  displayed record, a call of \<open>update\<close> that returns has appended the entry to
  the mapping and one row to the model, made of new cells that carry the hash, and
  has entered these cells in the table under the hash. Every other row, cell and
  entry is as before.
\<close>

theorem update_appends_new_hash:
  assumes "length (std_model s) = length (transactions s)"
    and "butlast (limit_confirmations fetched) = map snd (transactions s)"
    and "limit_confirmations fetched \<noteq> []"
    and "map_of (transactions s) (txid (last (limit_confirmations fetched))) = None"
    and "update env fetched s = Inr s'"
  shows "\<exists>items cells hid.
       s' = s\<lparr>transactions := transactions s
                  @ [(txid (last (limit_confirmations fetched)), last (limit_confirmations fetched))],
              txid_to_items := AList.update (txid (last (limit_confirmations fetched))) items
                                 (txid_to_items s),
              item_store := item_store s @ cells,
              std_model := std_model s @ [\<lparr>row_items = map Some items, row_hidden = hid\<rparr>],
              column_count := max (column_count s) 5\<rparr>
       \<and> items = [length (item_store s)..<length (item_store s) + length cells]
       \<and> 5 \<le> length cells
       \<and> list_all (\<lambda>c. tx_hash_role c = Some (txid (last (limit_confirmations fetched)))) cells"
proof -
  define r where "r = limit_confirmations fetched"
  define row where "row = last r"
  define s0 where "s0 = s\<lparr>transactions := transactions s @ [(txid row, row)]\<rparr>"
  have "length (butlast r) < length r" using assms(3) by (simp add: r_def)
  with assms(2) have ne: "r \<noteq> map snd (transactions s)" by (auto simp: r_def)
  with assms(2,3,4,5) have "add_tx env s row = Inr s'"
    by (simp add: update_def Let_def r_def row_def)
  with move_to_end_new[OF assms(4)] have ins: "insert_tx env s0 row = Inr s'"
    by (simp add: add_tx_def s0_def row_def r_def)
  from assms(4) have "txid row \<notin> set (map fst (transactions s))"
    by (simp add: map_of_None_iff row_def r_def)
  from list_index_snoc[OF this] assms(1)
  have idx: "list_index (map fst (transactions s0)) (txid row) = Some (length (std_model s0))"
    by (simp add: s0_def)
  from insert_tx_effect[OF ins idx] obtain items cells hid where
    s': "s' = s0\<lparr>txid_to_items := AList.update (txid row) items (txid_to_items s0),
              item_store := item_store s0 @ cells,
              std_model := std_model s0 @ [\<lparr>row_items = map Some items, row_hidden = hid\<rparr>],
              column_count := max (column_count s0) 5\<rparr>"
    and rest: "items = [length (item_store s0)..<length (item_store s0) + length cells]"
      "5 \<le> length cells" "list_all (\<lambda>c. tx_hash_role c = Some (txid row)) cells"
    by blast
  have "s' = s\<lparr>transactions := transactions s @ [(txid row, row)],
              txid_to_items := AList.update (txid row) items (txid_to_items s),
              item_store := item_store s @ cells,
              std_model := std_model s @ [\<lparr>row_items = map Some items, row_hidden = hid\<rparr>],
              column_count := max (column_count s) 5\<rparr>"
    by (simp add: s' s0_def)
  moreover have "items = [length (item_store s)..<length (item_store s) + length cells]"
    using rest(1) by (simp add: s0_def)
  ultimately show ?thesis using rest(2,3) unfolding row_def r_def by blast
qed

theorem update_appends_new_hash_witness:
  "length (std_model view1) = length (transactions view1)
   \<and> butlast (limit_confirmations [tx0 ''a'' 1, tx0 ''b'' 2]) = map snd (transactions view1)
   \<and> map_of (transactions view1) (txid (last (limit_confirmations [tx0 ''a'' 1, tx0 ''b'' 2]))) = None
   \<and> update wallet0 [tx0 ''a'' 1, tx0 ''b'' 2] view1 = Inr view2
   \<and> (\<exists>items cells hid.
       view2 = view1\<lparr>transactions := transactions view1
                  @ [(txid (last (limit_confirmations [tx0 ''a'' 1, tx0 ''b'' 2])),
                      last (limit_confirmations [tx0 ''a'' 1, tx0 ''b'' 2]))],
              txid_to_items := AList.update (txid (last (limit_confirmations [tx0 ''a'' 1, tx0 ''b'' 2])))
                                 items (txid_to_items view1),
              item_store := item_store view1 @ cells,
              std_model := std_model view1 @ [\<lparr>row_items = map Some items, row_hidden = hid\<rparr>],
              column_count := max (column_count view1) 5\<rparr>
       \<and> items = [length (item_store view1)..<length (item_store view1) + length cells]
       \<and> 5 \<le> length cells
       \<and> list_all (\<lambda>c. tx_hash_role c = Some (txid (last (limit_confirmations [tx0 ''a'' 1, tx0 ''b'' 2])))) cells)"
proof -
  have h1: "length (std_model view1) = length (transactions view1)"
    by (simp add: view1_def)
  have h2: "butlast (limit_confirmations [tx0 ''a'' 1, tx0 ''b'' 2]) = map snd (transactions view1)"
    by (simp add: limit_confirmations_def tx0_def view1_def)
  have h3: "limit_confirmations [tx0 ''a'' 1, tx0 ''b'' 2] \<noteq> []"
    by (simp add: limit_confirmations_def)
  have h4: "map_of (transactions view1) (txid (last (limit_confirmations [tx0 ''a'' 1, tx0 ''b'' 2]))) = None"
    by (simp add: limit_confirmations_def tx0_def view1_def)
  have h5: "update wallet0 [tx0 ''a'' 1, tx0 ''b'' 2] view1 = Inr view2"
    by code_simp
  from update_appends_new_hash[OF h1 h2 h3 h4 h5] h1 h2 h4 h5 show ?thesis by blast
qed

section \<open>The invariant of the view and the reconciliation walk\<close>









end
